theory Spec2Isabelle
  imports Main
begin

section \<open>Needleman-Wunsch global alignment: embedding of needleman_wunsch.py\<close>

text \<open>
  Sequences are Python strings, modelled as \<open>string\<close>; scores are Python's unbounded
  integers, modelled as \<open>int\<close>; matrices are lists of rows. Every subscript of the source
  is a checked access that raises \<open>IndexError\<close> out of range. All subscripts of the source
  are of the form \<open>k\<close> or \<open>k - 1\<close> with \<open>k \<ge> 1\<close>, so indices are natural numbers
  (Python's wrap-around of negative indices is never reached). The \<open>while\<close> loop of the
  traceback may run forever on an arbitrary traceback matrix, so it returns an option:
  \<open>None\<close> is non-termination.
\<close>

subsection \<open>Errors and checked list access\<close>

datatype error = ValueError | IndexError

definition rbind :: "error + 'a \<Rightarrow> ('a \<Rightarrow> error + 'b) \<Rightarrow> error + 'b" where
  "rbind m f = (case m of Inl e \<Rightarrow> Inl e | Inr x \<Rightarrow> f x)"

definition getitem :: "'a list \<Rightarrow> nat \<Rightarrow> error + 'a" where
  "getitem xs i = (if i < length xs then Inr (xs ! i) else Inl IndexError)"

definition getitem2 :: "'a list list \<Rightarrow> nat \<Rightarrow> nat \<Rightarrow> error + 'a" where
  "getitem2 M i j = rbind (getitem M i) (\<lambda>row. getitem row j)"

text \<open>\<open>M[i][j] = v\<close>: reads row \<open>i\<close>, then stores into it. Rows are distinct lists
  (built by a nested comprehension), so no other row changes.\<close>

definition setitem2 :: "'a list list \<Rightarrow> nat \<Rightarrow> nat \<Rightarrow> 'a \<Rightarrow> error + 'a list list" where
  "setitem2 M i j v =
     rbind (getitem M i) (\<lambda>row.
       if j < length row then Inr (M[i := row[j := v]]) else Inl IndexError)"

text \<open>\<open>for k in ks: body\<close> over a state, stopping at the first exception.\<close>

primrec for_loop :: "nat list \<Rightarrow> (nat \<Rightarrow> 's \<Rightarrow> error + 's) \<Rightarrow> 's \<Rightarrow> error + 's" where
  "for_loop [] body s = Inr s"
| "for_loop (k # ks) body s = rbind (body k s) (for_loop ks body)"

subsection \<open>Scoring policies\<close>

record NeedlemanWunsch =
  match_score :: int
  mismatch_score :: int
  gap_penalty :: int

record NeedlemanWunschAdvanced = NeedlemanWunsch +
  transition_penalty :: int
  transversion_penalty :: int

text \<open>\<open>NeedlemanWunschAdvanced.__init__\<close>: the transition penalty is passed to the base
  class as its mismatch score.\<close>

definition NeedlemanWunschAdvanced_init :: "int \<Rightarrow> int \<Rightarrow> int \<Rightarrow> int \<Rightarrow> NeedlemanWunschAdvanced" where
  "NeedlemanWunschAdvanced_init ms tp tvp gp =
     \<lparr>match_score = ms, mismatch_score = tp, gap_penalty = gp,
      transition_penalty = tp, transversion_penalty = tvp\<rparr>"

text \<open>\<open>NeedlemanWunsch._score_match_mismatch\<close>.\<close>

definition score_match_mismatch :: "'x NeedlemanWunsch_scheme \<Rightarrow> char \<Rightarrow> char \<Rightarrow> int" where
  "score_match_mismatch self char1 char2 =
     (if char1 = char2 then match_score self else mismatch_score self)"

text \<open>\<open>str.upper\<close> on one symbol. Symbols are 8-bit characters here; on them the model
  uppercases the ASCII letters. (Python also maps some non-ASCII letters, never to one
  of A, C, G, T, the only symbols the result is compared with.)\<close>

definition upper :: "char \<Rightarrow> char" where
  "upper c = (if 97 \<le> (of_char c :: nat) \<and> (of_char c :: nat) \<le> 122
              then char_of ((of_char c :: nat) - 32) else c)"

definition transitions :: "(char \<times> char) set" where
  "transitions = {(CHR ''A'', CHR ''G''), (CHR ''G'', CHR ''A''),
                  (CHR ''C'', CHR ''T''), (CHR ''T'', CHR ''C'')}"

text \<open>\<open>NeedlemanWunschAdvanced._score_match_mismatch\<close>.\<close>

definition score_match_mismatch_advanced ::
  "'x NeedlemanWunschAdvanced_scheme \<Rightarrow> char \<Rightarrow> char \<Rightarrow> int" where
  "score_match_mismatch_advanced self char1 char2 =
     (if char1 = char2 then match_score self
      else let nucleotide_pair = (upper char1, upper char2)
           in if nucleotide_pair \<in> transitions then transition_penalty self
              else transversion_penalty self)"

subsection \<open>Matrix construction\<close>

text \<open>The engine is written once over the scoring function \<open>sc\<close> (the method
  \<open>self._score_match_mismatch\<close>, resolved by the class of \<open>self\<close>) and the gap penalty.\<close>

definition initialize_score_matrix :: "int \<Rightarrow> nat \<Rightarrow> nat \<Rightarrow> error + int list list" where
  "initialize_score_matrix gap seq1_length seq2_length =
     rbind (for_loop [1..<seq2_length + 1] (\<lambda>j matrix. setitem2 matrix 0 j (int j * gap))
              (replicate (seq1_length + 1) (replicate (seq2_length + 1) 0)))
       (for_loop [1..<seq1_length + 1] (\<lambda>i matrix. setitem2 matrix i 0 (int i * gap)))"

type_synonym matrices = "char option list list \<times> int list list"

text \<open>The body of the inner loop of \<open>_run_needleman_wunsch\<close>, on the pair
  (traceback matrix, score matrix).\<close>

definition fill_cell ::
  "(char \<Rightarrow> char \<Rightarrow> int) \<Rightarrow> int \<Rightarrow> string \<Rightarrow> string \<Rightarrow> nat \<Rightarrow> nat \<Rightarrow> matrices \<Rightarrow> error + matrices" where
  "fill_cell sc gap seq1 seq2 i j st =
     (case st of (traceback_matrix, score_matrix) \<Rightarrow>
      rbind (getitem seq1 (i - 1)) (\<lambda>char1.
      rbind (getitem seq2 (j - 1)) (\<lambda>char2.
      rbind (getitem2 score_matrix (i - 1) (j - 1)) (\<lambda>d.
      rbind (getitem2 score_matrix (i - 1) j) (\<lambda>u.
      rbind (getitem2 score_matrix i (j - 1)) (\<lambda>l.
        let diagonal_score = d + sc char1 char2;
            up_score = u + gap;
            left_score = l + gap;
            max_score = max (max diagonal_score up_score) left_score
        in rbind (setitem2 score_matrix i j max_score) (\<lambda>score_matrix'.
           rbind (setitem2 traceback_matrix i j
                    (Some (if max_score = diagonal_score then CHR ''D''
                           else if max_score = up_score then CHR ''U''
                           else CHR ''L''))) (\<lambda>traceback_matrix'.
           Inr (traceback_matrix', score_matrix')))))))))"

definition run_needleman_wunsch ::
  "(char \<Rightarrow> char \<Rightarrow> int) \<Rightarrow> int \<Rightarrow> string \<Rightarrow> string \<Rightarrow> error + matrices" where
  "run_needleman_wunsch sc gap seq1 seq2 =
     (let seq1_length = length seq1; seq2_length = length seq2 in
      rbind (initialize_score_matrix gap seq1_length seq2_length) (\<lambda>score_matrix.
      rbind (for_loop [1..<seq1_length + 1] (\<lambda>i T. setitem2 T i 0 (Some CHR ''U''))
               (replicate (seq1_length + 1) (replicate (seq2_length + 1) None))) (\<lambda>T1.
      rbind (for_loop [1..<seq2_length + 1] (\<lambda>j T. setitem2 T 0 j (Some CHR ''L'')) T1)
        (\<lambda>traceback_matrix.
      for_loop [1..<seq1_length + 1]
        (\<lambda>i. for_loop [1..<seq2_length + 1] (\<lambda>j. fill_cell sc gap seq1 seq2 i j))
        (traceback_matrix, score_matrix)))))"

subsection \<open>Traceback\<close>

text \<open>The \<open>while\<close> loop of \<open>_get_aligned_sequences\<close>. The two output lists grow at the
  end (\<open>append\<close>). A cell of the traceback matrix that is none of 'D', 'U', 'L' changes
  nothing, and the loop goes round again in the same state.\<close>

partial_function (option) traceback_loop ::
  "char option list list \<Rightarrow> string \<Rightarrow> string \<Rightarrow> nat \<Rightarrow> nat \<Rightarrow> string \<Rightarrow> string
     \<Rightarrow> (error + string \<times> string) option" where
  "traceback_loop traceback_matrix seq1 seq2 i j seq1_aligned seq2_aligned =
     (if i > 0 \<or> j > 0 then
        (if i = 0 then
           (case getitem seq2 (j - 1) of Inl e \<Rightarrow> Some (Inl e)
            | Inr c2 \<Rightarrow> traceback_loop traceback_matrix seq1 seq2 i (j - 1)
                         (seq1_aligned @ [CHR ''-'']) (seq2_aligned @ [c2]))
         else if j = 0 then
           (case getitem seq1 (i - 1) of Inl e \<Rightarrow> Some (Inl e)
            | Inr c1 \<Rightarrow> traceback_loop traceback_matrix seq1 seq2 (i - 1) j
                         (seq1_aligned @ [c1]) (seq2_aligned @ [CHR ''-'']))
         else
           (case getitem2 traceback_matrix i j of Inl e \<Rightarrow> Some (Inl e)
            | Inr direction \<Rightarrow>
                if direction = Some CHR ''D'' then
                  (case getitem seq1 (i - 1) of Inl e \<Rightarrow> Some (Inl e)
                   | Inr c1 \<Rightarrow>
                  (case getitem seq2 (j - 1) of Inl e \<Rightarrow> Some (Inl e)
                   | Inr c2 \<Rightarrow> traceback_loop traceback_matrix seq1 seq2 (i - 1) (j - 1)
                                (seq1_aligned @ [c1]) (seq2_aligned @ [c2])))
                else if direction = Some CHR ''U'' then
                  (case getitem seq1 (i - 1) of Inl e \<Rightarrow> Some (Inl e)
                   | Inr c1 \<Rightarrow> traceback_loop traceback_matrix seq1 seq2 (i - 1) j
                                (seq1_aligned @ [c1]) (seq2_aligned @ [CHR ''-'']))
                else if direction = Some CHR ''L'' then
                  (case getitem seq2 (j - 1) of Inl e \<Rightarrow> Some (Inl e)
                   | Inr c2 \<Rightarrow> traceback_loop traceback_matrix seq1 seq2 i (j - 1)
                                (seq1_aligned @ [CHR ''-'']) (seq2_aligned @ [c2]))
                else traceback_loop traceback_matrix seq1 seq2 i j seq1_aligned seq2_aligned))
      else Some (Inr (seq1_aligned, seq2_aligned)))"

declare traceback_loop.simps [code]

definition get_aligned_sequences ::
  "char option list list \<Rightarrow> string \<Rightarrow> string \<Rightarrow> (error + string \<times> string) option" where
  "get_aligned_sequences traceback_matrix seq1 seq2 =
     (case traceback_loop traceback_matrix seq1 seq2 (length seq1) (length seq2) [] [] of
        None \<Rightarrow> None
      | Some (Inl e) \<Rightarrow> Some (Inl e)
      | Some (Inr (seq1_aligned, seq2_aligned)) \<Rightarrow>
          Some (Inr (rev seq1_aligned, rev seq2_aligned)))"

subsection \<open>Public operations\<close>

definition align ::
  "(char \<Rightarrow> char \<Rightarrow> int) \<Rightarrow> int \<Rightarrow> string \<Rightarrow> string \<Rightarrow> (error + string \<times> string \<times> int) option" where
  "align sc gap seq1 seq2 =
     (if seq1 = [] \<or> seq2 = [] then Some (Inl ValueError)
      else case run_needleman_wunsch sc gap seq1 seq2 of
             Inl e \<Rightarrow> Some (Inl e)
           | Inr (traceback_matrix, score_matrix) \<Rightarrow>
               (case get_aligned_sequences traceback_matrix seq1 seq2 of
                  None \<Rightarrow> None
                | Some (Inl e) \<Rightarrow> Some (Inl e)
                | Some (Inr (aligned_seq1, aligned_seq2)) \<Rightarrow>
                    (case getitem2 score_matrix (length seq1) (length seq2) of
                       Inl e \<Rightarrow> Some (Inl e)
                     | Inr alignment_score \<Rightarrow>
                         Some (Inr (aligned_seq1, aligned_seq2, alignment_score)))))"

record alignment_result =
  seq1_aligned :: string
  seq2_aligned :: string
  score :: int
  score_matrix :: "int list list"
  traceback_matrix :: "char option list list"

definition align_with_matrices ::
  "(char \<Rightarrow> char \<Rightarrow> int) \<Rightarrow> int \<Rightarrow> string \<Rightarrow> string \<Rightarrow> (error + alignment_result) option" where
  "align_with_matrices sc gap seq1 seq2 =
     (case run_needleman_wunsch sc gap seq1 seq2 of
        Inl e \<Rightarrow> Some (Inl e)
      | Inr (T, S) \<Rightarrow>
          (case get_aligned_sequences T seq1 seq2 of
             None \<Rightarrow> None
           | Some (Inl e) \<Rightarrow> Some (Inl e)
           | Some (Inr (aligned_seq1, aligned_seq2)) \<Rightarrow>
               (case getitem2 S (length seq1) (length seq2) of
                  Inl e \<Rightarrow> Some (Inl e)
                | Inr alignment_score \<Rightarrow>
                    Some (Inr \<lparr>seq1_aligned = aligned_seq1, seq2_aligned = aligned_seq2,
                               score = alignment_score, score_matrix = S,
                               traceback_matrix = T\<rparr>))))"

text \<open>The methods as called on an aligner object of either class.\<close>

definition NeedlemanWunsch_align ::
  "NeedlemanWunsch \<Rightarrow> string \<Rightarrow> string \<Rightarrow> (error + string \<times> string \<times> int) option" where
  "NeedlemanWunsch_align self = align (score_match_mismatch self) (gap_penalty self)"

definition NeedlemanWunschAdvanced_align ::
  "NeedlemanWunschAdvanced \<Rightarrow> string \<Rightarrow> string \<Rightarrow> (error + string \<times> string \<times> int) option" where
  "NeedlemanWunschAdvanced_align self =
     align (score_match_mismatch_advanced self) (gap_penalty self)"

section \<open>Reference functions and the alignments of two sequences\<close>

text \<open>
  The definitions of this section are not code of the repository. \<open>tab\<close>, \<open>score_cell\<close>,
  \<open>trace_cell\<close> and \<open>path\<close> give the matrices and the traceback walk in closed form, and the
  loops of the embedding are proved equal to them. A \<open>column\<close> is one column of a global
  alignment: a symbol of each sequence, or a symbol of one sequence against a gap in the
  other. An alignment of two sequences is a list of columns whose symbols, read in order,
  are the two sequences. \<open>remove_gaps\<close> deletes every gap marker from a string, as
  \<open>replace('-', '')\<close> does in the tests.
\<close>

definition tab :: "nat \<Rightarrow> nat \<Rightarrow> (nat \<Rightarrow> nat \<Rightarrow> 'a) \<Rightarrow> 'a list list" where
  "tab r c f = map (\<lambda>i. map (f i) [0..<c]) [0..<r]"

fun score_cell :: "(char \<Rightarrow> char \<Rightarrow> int) \<Rightarrow> int \<Rightarrow> string \<Rightarrow> string \<Rightarrow> nat \<Rightarrow> nat \<Rightarrow> int" where
  "score_cell sc gap seq1 seq2 0 j = int j * gap"
| "score_cell sc gap seq1 seq2 (Suc i) 0 = int (Suc i) * gap"
| "score_cell sc gap seq1 seq2 (Suc i) (Suc j) =
     max (max (score_cell sc gap seq1 seq2 i j + sc (seq1 ! i) (seq2 ! j))
              (score_cell sc gap seq1 seq2 i (Suc j) + gap))
         (score_cell sc gap seq1 seq2 (Suc i) j + gap)"

definition trace_cell :: "(char \<Rightarrow> char \<Rightarrow> int) \<Rightarrow> int \<Rightarrow> string \<Rightarrow> string \<Rightarrow> nat \<Rightarrow> nat \<Rightarrow> char option" where
  "trace_cell sc gap seq1 seq2 i j =
     (if j = 0 then (if i = 0 then None else Some CHR ''U'')
      else if i = 0 then Some CHR ''L''
      else let diagonal_score = score_cell sc gap seq1 seq2 (i - 1) (j - 1) + sc (seq1 ! (i - 1)) (seq2 ! (j - 1));
               up_score = score_cell sc gap seq1 seq2 (i - 1) j + gap;
               max_score = score_cell sc gap seq1 seq2 i j
           in Some (if max_score = diagonal_score then CHR ''D''
                    else if max_score = up_score then CHR ''U''
                    else CHR ''L''))"

definition init_score :: "int \<Rightarrow> nat \<Rightarrow> nat \<Rightarrow> int" where
  "init_score gap a b = (if a = 0 then int b * gap else if b = 0 then int a * gap else 0)"

definition init_trace :: "nat \<Rightarrow> nat \<Rightarrow> char option" where
  "init_trace a b = (if b = 0 then (if a = 0 then None else Some CHR ''U'')
                     else if a = 0 then Some CHR ''L'' else None)"

definition part_score ::
  "(char \<Rightarrow> char \<Rightarrow> int) \<Rightarrow> int \<Rightarrow> string \<Rightarrow> string \<Rightarrow> nat \<Rightarrow> nat \<Rightarrow> nat \<Rightarrow> nat \<Rightarrow> int" where
  "part_score sc gap seq1 seq2 i j a b =
     (if a < i \<or> (a = i \<and> b < j) then score_cell sc gap seq1 seq2 a b else init_score gap a b)"

definition part_trace ::
  "(char \<Rightarrow> char \<Rightarrow> int) \<Rightarrow> int \<Rightarrow> string \<Rightarrow> string \<Rightarrow> nat \<Rightarrow> nat \<Rightarrow> nat \<Rightarrow> nat \<Rightarrow> char option" where
  "part_trace sc gap seq1 seq2 i j a b =
     (if a < i \<or> (a = i \<and> b < j) then trace_cell sc gap seq1 seq2 a b else init_trace a b)"

definition fill_state ::
  "(char \<Rightarrow> char \<Rightarrow> int) \<Rightarrow> int \<Rightarrow> string \<Rightarrow> string \<Rightarrow> nat \<Rightarrow> nat \<Rightarrow> matrices" where
  "fill_state sc gap seq1 seq2 i j =
     (tab (length seq1 + 1) (length seq2 + 1) (part_trace sc gap seq1 seq2 i j),
      tab (length seq1 + 1) (length seq2 + 1) (part_score sc gap seq1 seq2 i j))"

datatype column = Paired char char | GapIn2 char | GapIn1 char

fun render1 :: "column \<Rightarrow> char" where
  "render1 (Paired a b) = a"
| "render1 (GapIn2 a) = a"
| "render1 (GapIn1 b) = CHR ''-''"

fun render2 :: "column \<Rightarrow> char" where
  "render2 (Paired a b) = b"
| "render2 (GapIn2 a) = CHR ''-''"
| "render2 (GapIn1 b) = b"

function path :: "(char \<Rightarrow> char \<Rightarrow> int) \<Rightarrow> int \<Rightarrow> string \<Rightarrow> string \<Rightarrow> nat \<Rightarrow> nat \<Rightarrow> column list" where
  "path sc gap seq1 seq2 i j =
     (if i = 0 \<and> j = 0 then []
      else if i = 0 then GapIn1 (seq2 ! (j - 1)) # path sc gap seq1 seq2 i (j - 1)
      else if j = 0 then GapIn2 (seq1 ! (i - 1)) # path sc gap seq1 seq2 (i - 1) j
      else if trace_cell sc gap seq1 seq2 i j = Some CHR ''D''
        then Paired (seq1 ! (i - 1)) (seq2 ! (j - 1)) # path sc gap seq1 seq2 (i - 1) (j - 1)
      else if trace_cell sc gap seq1 seq2 i j = Some CHR ''U''
        then GapIn2 (seq1 ! (i - 1)) # path sc gap seq1 seq2 (i - 1) j
      else GapIn1 (seq2 ! (j - 1)) # path sc gap seq1 seq2 i (j - 1))"
  by pat_completeness auto
termination
  by (relation "measure (\<lambda>(sc, gap, seq1, seq2, i, j). i + j)") auto

declare path.simps [simp del]

fun seq1_of :: "column list \<Rightarrow> string" where
  "seq1_of [] = []"
| "seq1_of (Paired a b # cs) = a # seq1_of cs"
| "seq1_of (GapIn2 a # cs) = a # seq1_of cs"
| "seq1_of (GapIn1 b # cs) = seq1_of cs"

fun seq2_of :: "column list \<Rightarrow> string" where
  "seq2_of [] = []"
| "seq2_of (Paired a b # cs) = b # seq2_of cs"
| "seq2_of (GapIn2 a # cs) = seq2_of cs"
| "seq2_of (GapIn1 b # cs) = b # seq2_of cs"

definition is_alignment :: "column list \<Rightarrow> string \<Rightarrow> string \<Rightarrow> bool" where
  "is_alignment al seq1 seq2 \<longleftrightarrow> seq1_of al = seq1 \<and> seq2_of al = seq2"

fun column_score :: "(char \<Rightarrow> char \<Rightarrow> int) \<Rightarrow> int \<Rightarrow> column \<Rightarrow> int" where
  "column_score sc gap (Paired a b) = sc a b"
| "column_score sc gap (GapIn2 a) = gap"
| "column_score sc gap (GapIn1 b) = gap"

definition alignment_score :: "(char \<Rightarrow> char \<Rightarrow> int) \<Rightarrow> int \<Rightarrow> column list \<Rightarrow> int" where
  "alignment_score sc gap al = sum_list (map (column_score sc gap) al)"

definition remove_gaps :: "string \<Rightarrow> string" where
  "remove_gaps s = filter (\<lambda>c. c \<noteq> CHR ''-'') s"

section \<open>The matrices and the traceback in closed form\<close>

lemma rbind_Inr [simp]: "rbind (Inr x) f = f x"
  by (simp add: rbind_def)

lemma rbind_Inl [simp]: "rbind (Inl e) f = Inl e"
  by (simp add: rbind_def)

lemma length_tab [simp]: "length (tab r c f) = r"
  by (simp add: tab_def)

lemma nth_tab [simp]: "i < r \<Longrightarrow> tab r c f ! i = map (f i) [0..<c]"
  by (simp add: tab_def)

lemma nth_nth_tab: "i < r \<Longrightarrow> j < c \<Longrightarrow> tab r c f ! i ! j = f i j"
  by simp

lemma tab_cong: "(\<And>i j. i < r \<Longrightarrow> j < c \<Longrightarrow> f i j = g i j) \<Longrightarrow> tab r c f = tab r c g"
  by (simp add: tab_def)

lemma replicate_tab: "replicate r (replicate c x) = tab r c (\<lambda>_ _. x)"
  by (simp add: tab_def map_replicate_const)

lemma getitem_lt [simp]: "i < length xs \<Longrightarrow> getitem xs i = Inr (xs ! i)"
  by (simp add: getitem_def)

lemma getitem2_tab: "i < r \<Longrightarrow> j < c \<Longrightarrow> getitem2 (tab r c f) i j = Inr (f i j)"
  by (simp add: getitem2_def)

lemma setitem2_tab:
  assumes "i < r" "j < c"
    and g: "\<And>a b. a < r \<Longrightarrow> b < c \<Longrightarrow> g a b = (if a = i \<and> b = j then v else f a b)"
  shows "setitem2 (tab r c f) i j v = Inr (tab r c g)"
proof -
  have "(tab r c f)[i := (map (f i) [0..<c])[j := v]] = tab r c g"
  proof (rule nth_equalityI)
    show "length ((tab r c f)[i := (map (f i) [0..<c])[j := v]]) = length (tab r c g)"
      by simp
  next
    fix a assume "a < length ((tab r c f)[i := (map (f i) [0..<c])[j := v]])"
    then have a: "a < r" by simp
    show "(tab r c f)[i := (map (f i) [0..<c])[j := v]] ! a = tab r c g ! a"
    proof (cases "a = i")
      case True
      have "(map (f i) [0..<c])[j := v] = map (g i) [0..<c]"
        by (rule nth_equalityI) (use assms True in \<open>auto simp: nth_list_update\<close>)
      with True a show ?thesis by simp
    next
      case False
      with a g show ?thesis by simp
    qed
  qed
  with assms(1,2) show ?thesis by (simp add: setitem2_def)
qed

lemma for_loop_upt:
  assumes "\<And>k. a \<le> k \<Longrightarrow> k < b \<Longrightarrow> body k (g k) = Inr (g (Suc k))" and "a \<le> b"
  shows "for_loop [a..<b] body (g a) = Inr (g b)"
  using assms
proof (induction "b - a" arbitrary: a)
  case 0
  then show ?case by simp
next
  case (Suc d)
  then have lt: "a < b" by simp
  have "for_loop [Suc a..<b] body (g (Suc a)) = Inr (g b)"
    using Suc.hyps(1)[of "Suc a"] Suc.hyps(2) Suc.prems(1) lt by simp
  then show ?case using lt Suc.prems(1)[of a] by (simp add: upt_conv_Cons)
qed

lemma initialize_score_matrix_tab:
  "initialize_score_matrix gap n m = Inr (tab (n + 1) (m + 1) (init_score gap))"
proof -
  let ?g1 = "\<lambda>j. tab (n + 1) (m + 1) (\<lambda>a b. if a = 0 \<and> 1 \<le> b \<and> b < j then int b * gap else 0)"
  let ?g2 = "\<lambda>i. tab (n + 1) (m + 1)
     (\<lambda>a b. if a = 0 then int b * gap else if b = 0 \<and> a < i then int a * gap else 0)"
  have "for_loop [1..<m + 1] (\<lambda>j matrix. setitem2 matrix 0 j (int j * gap)) (?g1 1) = Inr (?g1 (m + 1))"
    by (rule for_loop_upt) (auto intro!: setitem2_tab)
  moreover have "replicate (n + 1) (replicate (m + 1) (0::int)) = ?g1 1"
    unfolding replicate_tab by (rule tab_cong) simp
  moreover have "?g1 (m + 1) = ?g2 1"
    by (rule tab_cong) auto
  moreover have "for_loop [1..<n + 1] (\<lambda>i matrix. setitem2 matrix i 0 (int i * gap)) (?g2 1) = Inr (?g2 (n + 1))"
    by (rule for_loop_upt) (auto intro!: setitem2_tab)
  moreover have "?g2 (n + 1) = tab (n + 1) (m + 1) (init_score gap)"
    by (rule tab_cong) (auto simp: init_score_def)
  ultimately show ?thesis
    by (simp add: initialize_score_matrix_def)
qed

lemma initialize_traceback_tab:
  "rbind (for_loop [1..<n + 1] (\<lambda>i T. setitem2 T i 0 (Some CHR ''U''))
               (replicate (n + 1) (replicate (m + 1) None)))
     (for_loop [1..<m + 1] (\<lambda>j T. setitem2 T 0 j (Some CHR ''L'')))
   = Inr (tab (n + 1) (m + 1) init_trace)"
proof -
  let ?g1 = "\<lambda>i. tab (n + 1) (m + 1) (\<lambda>a b. if b = 0 \<and> 1 \<le> a \<and> a < i then Some CHR ''U'' else None)"
  let ?g2 = "\<lambda>j. tab (n + 1) (m + 1)
     (\<lambda>a b. if b = 0 then (if a = 0 then None else Some CHR ''U'')
             else if a = 0 \<and> b < j then Some CHR ''L'' else None)"
  have "for_loop [1..<n + 1] (\<lambda>i T. setitem2 T i 0 (Some CHR ''U'')) (?g1 1) = Inr (?g1 (n + 1))"
    by (rule for_loop_upt) (auto intro!: setitem2_tab)
  moreover have "replicate (n + 1) (replicate (m + 1) (None :: char option)) = ?g1 1"
    unfolding replicate_tab by (rule tab_cong) simp
  moreover have "?g1 (n + 1) = ?g2 1"
    by (rule tab_cong) auto
  moreover have "for_loop [1..<m + 1] (\<lambda>j T. setitem2 T 0 j (Some CHR ''L'')) (?g2 1) = Inr (?g2 (m + 1))"
    by (rule for_loop_upt) (auto intro!: setitem2_tab)
  moreover have "?g2 (m + 1) = tab (n + 1) (m + 1) init_trace"
    by (rule tab_cong) (auto simp: init_trace_def)
  ultimately show ?thesis
    by simp
qed

lemma score_cell_col0 [simp]: "score_cell sc gap seq1 seq2 i 0 = int i * gap"
  by (cases i) simp_all

lemma score_cell_interior:
  "0 < i \<Longrightarrow> 0 < j \<Longrightarrow>
   score_cell sc gap seq1 seq2 i j =
     max (max (score_cell sc gap seq1 seq2 (i - 1) (j - 1) + sc (seq1 ! (i - 1)) (seq2 ! (j - 1)))
              (score_cell sc gap seq1 seq2 (i - 1) j + gap))
         (score_cell sc gap seq1 seq2 i (j - 1) + gap)"
  by (cases i; cases j) simp_all

lemma init_score_border: "a = 0 \<or> b = 0 \<Longrightarrow> init_score gap a b = score_cell sc gap seq1 seq2 a b"
  by (auto simp: init_score_def)

lemma init_trace_border: "a = 0 \<or> b = 0 \<Longrightarrow> init_trace a b = trace_cell sc gap seq1 seq2 a b"
  by (auto simp: init_trace_def trace_cell_def)

lemma fill_cell_step:
  assumes i: "1 \<le> i" "i \<le> length seq1" and j: "1 \<le> j" "j \<le> length seq2"
  shows "fill_cell sc gap seq1 seq2 i j (fill_state sc gap seq1 seq2 i j)
         = Inr (fill_state sc gap seq1 seq2 i (Suc j))"
proof -
  let ?S = "score_cell sc gap seq1 seq2"
  let ?r = "length seq1 + 1" and ?c = "length seq2 + 1"
  let ?d = "?S (i - 1) (j - 1) + sc (seq1 ! (i - 1)) (seq2 ! (j - 1))"
  let ?u = "?S (i - 1) j + gap"
  let ?l = "?S i (j - 1) + gap"
  have mx: "max (max ?d ?u) ?l = ?S i j"
    using i j by (simp add: score_cell_interior)
  have c1: "getitem seq1 (i - 1) = Inr (seq1 ! (i - 1))"
    using i by simp
  have c2: "getitem seq2 (j - 1) = Inr (seq2 ! (j - 1))"
    using j by simp
  have g1: "getitem2 (tab ?r ?c (part_score sc gap seq1 seq2 i j)) (i - 1) (j - 1) = Inr (?S (i - 1) (j - 1))"
    using i j by (simp add: getitem2_tab part_score_def)
  have g2: "getitem2 (tab ?r ?c (part_score sc gap seq1 seq2 i j)) (i - 1) j = Inr (?S (i - 1) j)"
    using i j by (simp add: getitem2_tab part_score_def)
  have g3: "getitem2 (tab ?r ?c (part_score sc gap seq1 seq2 i j)) i (j - 1) = Inr (?S i (j - 1))"
    using i j by (simp add: getitem2_tab part_score_def)
  have s1: "setitem2 (tab ?r ?c (part_score sc gap seq1 seq2 i j)) i j (?S i j)
            = Inr (tab ?r ?c (part_score sc gap seq1 seq2 i (Suc j)))"
    using i j by (intro setitem2_tab) (auto simp: part_score_def)
  have s2: "setitem2 (tab ?r ?c (part_trace sc gap seq1 seq2 i j)) i j (trace_cell sc gap seq1 seq2 i j)
            = Inr (tab ?r ?c (part_trace sc gap seq1 seq2 i (Suc j)))"
    using i j by (intro setitem2_tab) (auto simp: part_trace_def)
  have tc: "Some (if ?S i j = ?d then CHR ''D'' else if ?S i j = ?u then CHR ''U'' else CHR ''L'')
            = trace_cell sc gap seq1 seq2 i j"
    using i j by (simp add: trace_cell_def Let_def)
  show ?thesis
    unfolding fill_cell_def fill_state_def prod.case c1 c2 g1 g2 g3 rbind_Inr Let_def mx tc s1 s2
    by (rule refl)
qed

lemma fill_row_end:
  "fill_state sc gap seq1 seq2 i (length seq2 + 1) = fill_state sc gap seq1 seq2 (Suc i) 1"
proof -
  have "tab (length seq1 + 1) (length seq2 + 1) (part_score sc gap seq1 seq2 i (length seq2 + 1))
      = tab (length seq1 + 1) (length seq2 + 1) (part_score sc gap seq1 seq2 (Suc i) 1)"
    by (rule tab_cong) (auto simp: part_score_def init_score_def)
  moreover have "tab (length seq1 + 1) (length seq2 + 1) (part_trace sc gap seq1 seq2 i (length seq2 + 1))
      = tab (length seq1 + 1) (length seq2 + 1) (part_trace sc gap seq1 seq2 (Suc i) 1)"
    by (rule tab_cong) (auto simp: part_trace_def init_trace_def trace_cell_def)
  ultimately show ?thesis by (simp add: fill_state_def)
qed

lemma fill_state_start:
  "fill_state sc gap seq1 seq2 1 1
   = (tab (length seq1 + 1) (length seq2 + 1) init_trace,
      tab (length seq1 + 1) (length seq2 + 1) (init_score gap))"
proof -
  have "tab (length seq1 + 1) (length seq2 + 1) (part_score sc gap seq1 seq2 1 1)
      = tab (length seq1 + 1) (length seq2 + 1) (init_score gap)"
    by (rule tab_cong) (auto simp: part_score_def init_score_def)
  moreover have "tab (length seq1 + 1) (length seq2 + 1) (part_trace sc gap seq1 seq2 1 1)
      = tab (length seq1 + 1) (length seq2 + 1) init_trace"
    by (rule tab_cong) (auto simp: part_trace_def init_trace_def trace_cell_def)
  ultimately show ?thesis by (simp add: fill_state_def)
qed

lemma fill_state_final:
  "fill_state sc gap seq1 seq2 (length seq1 + 1) 1
   = (tab (length seq1 + 1) (length seq2 + 1) (trace_cell sc gap seq1 seq2),
      tab (length seq1 + 1) (length seq2 + 1) (score_cell sc gap seq1 seq2))"
proof -
  have "tab (length seq1 + 1) (length seq2 + 1) (part_score sc gap seq1 seq2 (length seq1 + 1) 1)
      = tab (length seq1 + 1) (length seq2 + 1) (score_cell sc gap seq1 seq2)"
    by (rule tab_cong) (auto simp: part_score_def)
  moreover have "tab (length seq1 + 1) (length seq2 + 1) (part_trace sc gap seq1 seq2 (length seq1 + 1) 1)
      = tab (length seq1 + 1) (length seq2 + 1) (trace_cell sc gap seq1 seq2)"
    by (rule tab_cong) (auto simp: part_trace_def)
  ultimately show ?thesis by (simp add: fill_state_def)
qed

lemma fill_row:
  assumes "1 \<le> i" "i \<le> length seq1"
  shows "for_loop [1..<length seq2 + 1] (\<lambda>j. fill_cell sc gap seq1 seq2 i j)
           (fill_state sc gap seq1 seq2 i 1)
         = Inr (fill_state sc gap seq1 seq2 (Suc i) 1)"
proof -
  have "for_loop [1..<length seq2 + 1] (\<lambda>j. fill_cell sc gap seq1 seq2 i j)
           (fill_state sc gap seq1 seq2 i 1)
        = Inr (fill_state sc gap seq1 seq2 i (length seq2 + 1))"
    by (rule for_loop_upt) (use assms in \<open>auto intro!: fill_cell_step\<close>)
  then show ?thesis by (simp only: fill_row_end)
qed

lemma fill_all:
  "for_loop [1..<length seq1 + 1]
     (\<lambda>i. for_loop [1..<length seq2 + 1] (\<lambda>j. fill_cell sc gap seq1 seq2 i j))
     (fill_state sc gap seq1 seq2 1 1)
   = Inr (fill_state sc gap seq1 seq2 (length seq1 + 1) 1)"
proof (rule for_loop_upt[where g = "\<lambda>i. fill_state sc gap seq1 seq2 i 1"])
  fix k assume "1 \<le> k" "k < length seq1 + 1"
  then show "for_loop [1..<length seq2 + 1] (fill_cell sc gap seq1 seq2 k)
               (fill_state sc gap seq1 seq2 k 1)
             = Inr (fill_state sc gap seq1 seq2 (Suc k) 1)"
    by (intro fill_row) simp_all
qed simp

lemma run_needleman_wunsch_tab:
  "run_needleman_wunsch sc gap seq1 seq2
   = Inr (tab (length seq1 + 1) (length seq2 + 1) (trace_cell sc gap seq1 seq2),
          tab (length seq1 + 1) (length seq2 + 1) (score_cell sc gap seq1 seq2))"
proof -
  have "run_needleman_wunsch sc gap seq1 seq2
        = rbind (rbind (for_loop [1..<length seq1 + 1] (\<lambda>i T. setitem2 T i 0 (Some CHR ''U''))
                   (replicate (length seq1 + 1) (replicate (length seq2 + 1) None)))
                 (for_loop [1..<length seq2 + 1] (\<lambda>j T. setitem2 T 0 j (Some CHR ''L''))))
            (\<lambda>traceback_matrix. for_loop [1..<length seq1 + 1]
               (\<lambda>i. for_loop [1..<length seq2 + 1] (\<lambda>j. fill_cell sc gap seq1 seq2 i j))
               (traceback_matrix, tab (length seq1 + 1) (length seq2 + 1) (init_score gap)))"
    by (simp add: run_needleman_wunsch_def Let_def initialize_score_matrix_tab rbind_def
             split: sum.splits)
  also have "\<dots> = for_loop [1..<length seq1 + 1]
               (\<lambda>i. for_loop [1..<length seq2 + 1] (\<lambda>j. fill_cell sc gap seq1 seq2 i j))
               (fill_state sc gap seq1 seq2 1 1)"
    by (simp only: initialize_traceback_tab rbind_Inr fill_state_start)
  also have "\<dots> = Inr (fill_state sc gap seq1 seq2 (length seq1 + 1) 1)"
    by (rule fill_all)
  finally show ?thesis by (simp only: fill_state_final)
qed

lemma run_needleman_wunsch_Suc:
  "run_needleman_wunsch sc gap seq1 seq2
   = Inr (tab (Suc (length seq1)) (Suc (length seq2)) (trace_cell sc gap seq1 seq2),
          tab (Suc (length seq1)) (Suc (length seq2)) (score_cell sc gap seq1 seq2))"
  by (simp add: run_needleman_wunsch_tab)

lemma path_stop: "path sc gap seq1 seq2 0 0 = []"
  by (subst path.simps) simp

lemma path_row0:
  "0 < j \<Longrightarrow> path sc gap seq1 seq2 0 j = GapIn1 (seq2 ! (j - 1)) # path sc gap seq1 seq2 0 (j - 1)"
  by (subst path.simps) simp

lemma path_col0:
  "0 < i \<Longrightarrow> path sc gap seq1 seq2 i 0 = GapIn2 (seq1 ! (i - 1)) # path sc gap seq1 seq2 (i - 1) 0"
  by (subst path.simps) simp

lemma path_D:
  "0 < i \<Longrightarrow> 0 < j \<Longrightarrow> trace_cell sc gap seq1 seq2 i j = Some CHR ''D'' \<Longrightarrow>
   path sc gap seq1 seq2 i j
   = Paired (seq1 ! (i - 1)) (seq2 ! (j - 1)) # path sc gap seq1 seq2 (i - 1) (j - 1)"
  by (subst path.simps) simp

lemma path_U:
  "0 < i \<Longrightarrow> 0 < j \<Longrightarrow> trace_cell sc gap seq1 seq2 i j = Some CHR ''U'' \<Longrightarrow>
   path sc gap seq1 seq2 i j = GapIn2 (seq1 ! (i - 1)) # path sc gap seq1 seq2 (i - 1) j"
  by (subst path.simps) simp

lemma path_L:
  "0 < i \<Longrightarrow> 0 < j \<Longrightarrow> trace_cell sc gap seq1 seq2 i j = Some CHR ''L'' \<Longrightarrow>
   path sc gap seq1 seq2 i j = GapIn1 (seq2 ! (j - 1)) # path sc gap seq1 seq2 i (j - 1)"
  by (subst path.simps) simp

lemma trace_cell_interior:
  "0 < i \<Longrightarrow> 0 < j \<Longrightarrow> trace_cell sc gap seq1 seq2 i j \<noteq> Some CHR ''D'' \<Longrightarrow>
   trace_cell sc gap seq1 seq2 i j \<noteq> Some CHR ''U'' \<Longrightarrow>
   trace_cell sc gap seq1 seq2 i j = Some CHR ''L''"
  by (simp add: trace_cell_def Let_def split: if_splits)

lemma traceback_loop_path:
  assumes "i \<le> length seq1" "j \<le> length seq2"
  shows "traceback_loop (tab (Suc (length seq1)) (Suc (length seq2)) (trace_cell sc gap seq1 seq2))
           seq1 seq2 i j a1 a2
         = Some (Inr (a1 @ map render1 (path sc gap seq1 seq2 i j),
                      a2 @ map render2 (path sc gap seq1 seq2 i j)))"
  using assms
proof (induction sc gap seq1 seq2 i j arbitrary: a1 a2 rule: path.induct)
  case (1 sc gap seq1 seq2 i j)
  let ?T = "tab (Suc (length seq1)) (Suc (length seq2)) (trace_cell sc gap seq1 seq2)"
  have get: "getitem2 ?T i j = Inr (trace_cell sc gap seq1 seq2 i j)"
    using "1.prems" by (simp add: getitem2_tab)
  consider (stop) "i = 0" "j = 0" | (row0) "i = 0" "0 < j" | (col0) "0 < i" "j = 0"
    | (D) "0 < i" "0 < j" "trace_cell sc gap seq1 seq2 i j = Some CHR ''D''"
    | (U) "0 < i" "0 < j" "trace_cell sc gap seq1 seq2 i j = Some CHR ''U''"
    | (L) "0 < i" "0 < j" "trace_cell sc gap seq1 seq2 i j \<noteq> Some CHR ''D''"
          "trace_cell sc gap seq1 seq2 i j \<noteq> Some CHR ''U''"
    by fastforce
  then show ?case
  proof cases
    case stop
    then show ?thesis
      by (subst traceback_loop.simps) (simp add: path_stop)
  next
    case row0
    have p: "path sc gap seq1 seq2 0 j = GapIn1 (seq2 ! (j - 1)) # path sc gap seq1 seq2 0 (j - 1)"
      using row0 by (intro path_row0)
    have "traceback_loop ?T seq1 seq2 0 (j - 1) (a1 @ [CHR ''-'']) (a2 @ [seq2 ! (j - 1)])
          = Some (Inr ((a1 @ [CHR ''-'']) @ map render1 (path sc gap seq1 seq2 0 (j - 1)),
                       (a2 @ [seq2 ! (j - 1)]) @ map render2 (path sc gap seq1 seq2 0 (j - 1))))"
      using row0 "1.prems" "1.IH"(1)[of "a1 @ [CHR ''-'']" "a2 @ [seq2 ! (j - 1)]"] by simp
    with row0 "1.prems" show ?thesis
      by (subst traceback_loop.simps) (simp add: p)
  next
    case col0
    have p: "path sc gap seq1 seq2 i 0 = GapIn2 (seq1 ! (i - 1)) # path sc gap seq1 seq2 (i - 1) 0"
      using col0 by (intro path_col0)
    have "traceback_loop ?T seq1 seq2 (i - 1) 0 (a1 @ [seq1 ! (i - 1)]) (a2 @ [CHR ''-''])
          = Some (Inr ((a1 @ [seq1 ! (i - 1)]) @ map render1 (path sc gap seq1 seq2 (i - 1) 0),
                       (a2 @ [CHR ''-'']) @ map render2 (path sc gap seq1 seq2 (i - 1) 0)))"
      using col0 "1.prems" "1.IH"(2)[of "a1 @ [seq1 ! (i - 1)]" "a2 @ [CHR ''-'']"] by simp
    with col0 "1.prems" show ?thesis
      by (subst traceback_loop.simps) (simp add: p)
  next
    case D
    have p: "path sc gap seq1 seq2 i j
             = Paired (seq1 ! (i - 1)) (seq2 ! (j - 1)) # path sc gap seq1 seq2 (i - 1) (j - 1)"
      using D by (intro path_D)
    have "traceback_loop ?T seq1 seq2 (i - 1) (j - 1) (a1 @ [seq1 ! (i - 1)]) (a2 @ [seq2 ! (j - 1)])
          = Some (Inr ((a1 @ [seq1 ! (i - 1)]) @ map render1 (path sc gap seq1 seq2 (i - 1) (j - 1)),
                       (a2 @ [seq2 ! (j - 1)]) @ map render2 (path sc gap seq1 seq2 (i - 1) (j - 1))))"
      using D "1.prems" "1.IH"(3)[of "a1 @ [seq1 ! (i - 1)]" "a2 @ [seq2 ! (j - 1)]"] by simp
    with D "1.prems" show ?thesis
      by (subst traceback_loop.simps) (simp add: p get)
  next
    case U
    have p: "path sc gap seq1 seq2 i j = GapIn2 (seq1 ! (i - 1)) # path sc gap seq1 seq2 (i - 1) j"
      using U by (intro path_U)
    have "traceback_loop ?T seq1 seq2 (i - 1) j (a1 @ [seq1 ! (i - 1)]) (a2 @ [CHR ''-''])
          = Some (Inr ((a1 @ [seq1 ! (i - 1)]) @ map render1 (path sc gap seq1 seq2 (i - 1) j),
                       (a2 @ [CHR ''-'']) @ map render2 (path sc gap seq1 seq2 (i - 1) j)))"
      using U "1.prems" "1.IH"(4)[of "a1 @ [seq1 ! (i - 1)]" "a2 @ [CHR ''-'']"] by simp
    with U "1.prems" show ?thesis
      by (subst traceback_loop.simps) (simp add: p get)
  next
    case L
    then have tl: "trace_cell sc gap seq1 seq2 i j = Some CHR ''L''"
      by (intro trace_cell_interior)
    have p: "path sc gap seq1 seq2 i j = GapIn1 (seq2 ! (j - 1)) # path sc gap seq1 seq2 i (j - 1)"
      using L tl by (intro path_L)
    have "traceback_loop ?T seq1 seq2 i (j - 1) (a1 @ [CHR ''-'']) (a2 @ [seq2 ! (j - 1)])
          = Some (Inr ((a1 @ [CHR ''-'']) @ map render1 (path sc gap seq1 seq2 i (j - 1)),
                       (a2 @ [seq2 ! (j - 1)]) @ map render2 (path sc gap seq1 seq2 i (j - 1))))"
      using L "1.prems" "1.IH"(5)[of "a1 @ [CHR ''-'']" "a2 @ [seq2 ! (j - 1)]"] by simp
    with L(1,2) tl "1.prems" show ?thesis
      by (subst traceback_loop.simps) (simp add: p get)
  qed
qed

lemma get_aligned_sequences_path:
  "get_aligned_sequences (tab (Suc (length seq1)) (Suc (length seq2)) (trace_cell sc gap seq1 seq2))
     seq1 seq2
   = Some (Inr (map render1 (rev (path sc gap seq1 seq2 (length seq1) (length seq2))),
                map render2 (rev (path sc gap seq1 seq2 (length seq1) (length seq2)))))"
  unfolding get_aligned_sequences_def traceback_loop_path[OF le_refl le_refl]
  by (simp add: rev_map)

lemma align_path:
  assumes "seq1 \<noteq> []" "seq2 \<noteq> []"
  shows "align sc gap seq1 seq2
   = Some (Inr (map render1 (rev (path sc gap seq1 seq2 (length seq1) (length seq2))),
                map render2 (rev (path sc gap seq1 seq2 (length seq1) (length seq2))),
                score_cell sc gap seq1 seq2 (length seq1) (length seq2)))"
proof -
  have "getitem2 (tab (Suc (length seq1)) (Suc (length seq2)) (score_cell sc gap seq1 seq2))
          (length seq1) (length seq2)
        = Inr (score_cell sc gap seq1 seq2 (length seq1) (length seq2))"
    by (rule getitem2_tab) simp_all
  with assms show ?thesis
    by (simp add: align_def run_needleman_wunsch_Suc get_aligned_sequences_path)
qed

lemma seq1_of_append [simp]: "seq1_of (xs @ ys) = seq1_of xs @ seq1_of ys"
  by (induction xs rule: seq1_of.induct) simp_all

lemma seq2_of_append [simp]: "seq2_of (xs @ ys) = seq2_of xs @ seq2_of ys"
  by (induction xs rule: seq2_of.induct) simp_all

lemma alignment_score_Nil [simp]: "alignment_score sc gap [] = 0"
  by (simp add: alignment_score_def)

lemma alignment_score_Cons [simp]:
  "alignment_score sc gap (c # cs) = column_score sc gap c + alignment_score sc gap cs"
  by (simp add: alignment_score_def)

lemma alignment_score_append [simp]:
  "alignment_score sc gap (xs @ ys) = alignment_score sc gap xs + alignment_score sc gap ys"
  by (simp add: alignment_score_def)

lemma alignment_score_rev [simp]: "alignment_score sc gap (rev al) = alignment_score sc gap al"
  by (induction al) simp_all

lemma path_induct [case_names stop row0 col0 D U L]:
  assumes "P 0 0 []"
    and "\<And>j p. 0 < j \<Longrightarrow> P 0 (j - 1) p \<Longrightarrow> P 0 j (GapIn1 (seq2 ! (j - 1)) # p)"
    and "\<And>i p. 0 < i \<Longrightarrow> P (i - 1) 0 p \<Longrightarrow> P i 0 (GapIn2 (seq1 ! (i - 1)) # p)"
    and "\<And>i j p. 0 < i \<Longrightarrow> 0 < j \<Longrightarrow> trace_cell sc gap seq1 seq2 i j = Some CHR ''D'' \<Longrightarrow>
           P (i - 1) (j - 1) p \<Longrightarrow> P i j (Paired (seq1 ! (i - 1)) (seq2 ! (j - 1)) # p)"
    and "\<And>i j p. 0 < i \<Longrightarrow> 0 < j \<Longrightarrow> trace_cell sc gap seq1 seq2 i j = Some CHR ''U'' \<Longrightarrow>
           P (i - 1) j p \<Longrightarrow> P i j (GapIn2 (seq1 ! (i - 1)) # p)"
    and "\<And>i j p. 0 < i \<Longrightarrow> 0 < j \<Longrightarrow> trace_cell sc gap seq1 seq2 i j = Some CHR ''L'' \<Longrightarrow>
           P i (j - 1) p \<Longrightarrow> P i j (GapIn1 (seq2 ! (j - 1)) # p)"
  shows "P i j (path sc gap seq1 seq2 i j)"
proof (induction "i + j" arbitrary: i j rule: less_induct)
  case less
  consider (stop) "i = 0" "j = 0" | (row0) "i = 0" "0 < j" | (col0) "0 < i" "j = 0"
    | (D) "0 < i" "0 < j" "trace_cell sc gap seq1 seq2 i j = Some CHR ''D''"
    | (U) "0 < i" "0 < j" "trace_cell sc gap seq1 seq2 i j = Some CHR ''U''"
    | (L) "0 < i" "0 < j" "trace_cell sc gap seq1 seq2 i j \<noteq> Some CHR ''D''"
          "trace_cell sc gap seq1 seq2 i j \<noteq> Some CHR ''U''"
    by fastforce
  then show ?case
  proof cases
    case stop
    with assms(1) show ?thesis by (simp add: path_stop)
  next
    case row0
    have "P 0 (j - 1) (path sc gap seq1 seq2 0 (j - 1))"
      using row0 by (intro less) simp
    from assms(2)[OF row0(2) this] show ?thesis
      using row0 path_row0[OF row0(2), of sc gap seq1 seq2] by simp
  next
    case col0
    have "P (i - 1) 0 (path sc gap seq1 seq2 (i - 1) 0)"
      using col0 by (intro less) simp
    from assms(3)[OF col0(1) this] show ?thesis
      using col0 path_col0[OF col0(1), of sc gap seq1 seq2] by simp
  next
    case D
    have "P (i - 1) (j - 1) (path sc gap seq1 seq2 (i - 1) (j - 1))"
      using D by (intro less) simp
    from assms(4)[OF D this] show ?thesis
      using path_D[OF D] by simp
  next
    case U
    have "P (i - 1) j (path sc gap seq1 seq2 (i - 1) j)"
      using U by (intro less) simp
    from assms(5)[OF U this] show ?thesis
      using path_U[OF U] by simp
  next
    case L
    then have tl: "trace_cell sc gap seq1 seq2 i j = Some CHR ''L''"
      by (intro trace_cell_interior)
    have "P i (j - 1) (path sc gap seq1 seq2 i (j - 1))"
      using L by (intro less) simp
    from assms(6)[OF L(1,2) tl this] show ?thesis
      using path_L[OF L(1,2) tl] by simp
  qed
qed

lemma take_step: "0 < i \<Longrightarrow> i \<le> length xs \<Longrightarrow> take (i - Suc 0) xs @ [xs ! (i - Suc 0)] = take i xs"
  using take_Suc_conv_app_nth[of "i - 1" xs] by simp

lemma path_seq1_of:
  "i \<le> length seq1 \<longrightarrow> seq1_of (rev (path sc gap seq1 seq2 i j)) = take i seq1"
  by (rule path_induct[where P = "\<lambda>i j p. i \<le> length seq1 \<longrightarrow> seq1_of (rev p) = take i seq1"])
     (simp_all add: take_step)

lemma path_seq2_of:
  "j \<le> length seq2 \<longrightarrow> seq2_of (rev (path sc gap seq1 seq2 i j)) = take j seq2"
  by (rule path_induct[where P = "\<lambda>i j p. j \<le> length seq2 \<longrightarrow> seq2_of (rev p) = take j seq2"])
     (simp_all add: take_step)

lemma trace_D_score:
  "0 < i \<Longrightarrow> 0 < j \<Longrightarrow> trace_cell sc gap seq1 seq2 i j = Some CHR ''D'' \<Longrightarrow>
   score_cell sc gap seq1 seq2 i j
   = score_cell sc gap seq1 seq2 (i - 1) (j - 1) + sc (seq1 ! (i - 1)) (seq2 ! (j - 1))"
  by (simp add: trace_cell_def Let_def split: if_splits)

lemma trace_U_score:
  "0 < i \<Longrightarrow> 0 < j \<Longrightarrow> trace_cell sc gap seq1 seq2 i j = Some CHR ''U'' \<Longrightarrow>
   score_cell sc gap seq1 seq2 i j = score_cell sc gap seq1 seq2 (i - 1) j + gap"
  by (simp add: trace_cell_def Let_def split: if_splits)

lemma max3_other:
  fixes m d u l :: int
  shows "m = max (max d u) l \<Longrightarrow> m \<noteq> d \<Longrightarrow> m \<noteq> u \<Longrightarrow> m = l"
  by (simp add: max_def split: if_splits)

lemma max3_ge:
  fixes m d u l :: int
  shows "m = max (max d u) l \<Longrightarrow> d \<le> m \<and> u \<le> m \<and> l \<le> m"
  by (simp add: max_def)

lemma trace_L_score:
  assumes "0 < i" "0 < j" "trace_cell sc gap seq1 seq2 i j = Some CHR ''L''"
  shows "score_cell sc gap seq1 seq2 i j = score_cell sc gap seq1 seq2 i (j - 1) + gap"
proof -
  have ne: "score_cell sc gap seq1 seq2 i j
          \<noteq> score_cell sc gap seq1 seq2 (i - 1) (j - 1) + sc (seq1 ! (i - 1)) (seq2 ! (j - 1))"
       "score_cell sc gap seq1 seq2 i j \<noteq> score_cell sc gap seq1 seq2 (i - 1) j + gap"
    using assms by (simp_all add: trace_cell_def Let_def split: if_splits)
  show ?thesis
    by (rule max3_other[OF score_cell_interior[OF assms(1,2)] ne])
qed

lemma path_score:
  "alignment_score sc gap (path sc gap seq1 seq2 i j) = score_cell sc gap seq1 seq2 i j"
  by (rule path_induct[where P = "\<lambda>i j p. alignment_score sc gap p = score_cell sc gap seq1 seq2 i j"])
     (simp_all add: trace_D_score trace_U_score trace_L_score algebra_simps of_nat_diff)

lemma path_length_upper: "length (path sc gap seq1 seq2 i j) \<le> i + j"
  by (rule path_induct[where P = "\<lambda>i j p. length p \<le> i + j"]) auto

lemma path_length_lower: "max i j \<le> length (path sc gap seq1 seq2 i j)"
  by (rule path_induct[where P = "\<lambda>i j p. max i j \<le> length p"]) auto

lemma snoc_take:
  assumes "xs @ [a] = take i ys" "i \<le> length ys"
  shows "0 < i \<and> xs = take (i - Suc 0) ys \<and> a = ys ! (i - Suc 0)"
proof -
  have pos: "0 < i" using assms(1) by (cases i) auto
  from pos assms(2) have "take (i - Suc 0) ys @ [ys ! (i - Suc 0)] = take i ys"
    by (rule take_step)
  with assms(1) have "xs @ [a] = take (i - Suc 0) ys @ [ys ! (i - Suc 0)]" by simp
  with pos show ?thesis by simp
qed

lemma take_Nil_le: "[] = take i ys \<Longrightarrow> i \<le> length ys \<Longrightarrow> i = 0"
  by (cases ys; cases i) auto

lemma score_cell_diag_le:
  assumes "0 < i" "0 < j"
  shows "score_cell sc gap seq1 seq2 (i - 1) (j - 1) + sc (seq1 ! (i - 1)) (seq2 ! (j - 1))
         \<le> score_cell sc gap seq1 seq2 i j"
  using max3_ge[OF score_cell_interior[OF assms, of sc gap seq1 seq2]] by (rule conjunct1)

lemma score_cell_up_le:
  assumes "0 < i"
  shows "score_cell sc gap seq1 seq2 (i - 1) j + gap \<le> score_cell sc gap seq1 seq2 i j"
proof (cases "j = 0")
  case True
  with assms show ?thesis by (simp add: algebra_simps of_nat_diff)
next
  case False
  then have j: "0 < j" by simp
  from max3_ge[OF score_cell_interior[OF assms j, of sc gap seq1 seq2]]
  show ?thesis by (elim conjE)
qed

lemma score_cell_left_le:
  assumes "0 < j"
  shows "score_cell sc gap seq1 seq2 i (j - 1) + gap \<le> score_cell sc gap seq1 seq2 i j"
proof (cases "i = 0")
  case True
  with assms show ?thesis by (simp add: algebra_simps of_nat_diff)
next
  case False
  then have i: "0 < i" by simp
  from max3_ge[OF score_cell_interior[OF i assms, of sc gap seq1 seq2]]
  show ?thesis by (elim conjE)
qed

lemma score_cell_upper:
  "seq1_of al = take i seq1 \<Longrightarrow> seq2_of al = take j seq2 \<Longrightarrow>
   i \<le> length seq1 \<Longrightarrow> j \<le> length seq2 \<Longrightarrow>
   alignment_score sc gap al \<le> score_cell sc gap seq1 seq2 i j"
proof (induction al arbitrary: i j rule: rev_induct)
  case Nil
  then have "i = 0" "j = 0" by (auto dest: take_Nil_le)
  then show ?case by simp
next
  case (snoc c al)
  show ?case
  proof (cases c)
    case (Paired a b)
    from snoc.prems Paired have i: "0 < i \<and> seq1_of al = take (i - Suc 0) seq1 \<and> a = seq1 ! (i - Suc 0)"
      by (intro snoc_take) simp_all
    from snoc.prems Paired have j: "0 < j \<and> seq2_of al = take (j - Suc 0) seq2 \<and> b = seq2 ! (j - Suc 0)"
      by (intro snoc_take) simp_all
    have "alignment_score sc gap al \<le> score_cell sc gap seq1 seq2 (i - Suc 0) (j - Suc 0)"
      using i j snoc.prems by (intro snoc.IH) simp_all
    moreover have "score_cell sc gap seq1 seq2 (i - Suc 0) (j - Suc 0) + sc a b
                   \<le> score_cell sc gap seq1 seq2 i j"
      using i j score_cell_diag_le[of i j sc gap seq1 seq2] by simp
    ultimately show ?thesis using Paired by simp
  next
    case (GapIn2 a)
    from snoc.prems GapIn2 have i: "0 < i \<and> seq1_of al = take (i - Suc 0) seq1 \<and> a = seq1 ! (i - Suc 0)"
      by (intro snoc_take) simp_all
    have "alignment_score sc gap al \<le> score_cell sc gap seq1 seq2 (i - Suc 0) j"
      using i GapIn2 snoc.prems by (intro snoc.IH) simp_all
    moreover have "score_cell sc gap seq1 seq2 (i - Suc 0) j + gap \<le> score_cell sc gap seq1 seq2 i j"
      using i score_cell_up_le[of i sc gap seq1 seq2 j] by simp
    ultimately show ?thesis using GapIn2 by simp
  next
    case (GapIn1 b)
    from snoc.prems GapIn1 have j: "0 < j \<and> seq2_of al = take (j - Suc 0) seq2 \<and> b = seq2 ! (j - Suc 0)"
      by (intro snoc_take) simp_all
    have "alignment_score sc gap al \<le> score_cell sc gap seq1 seq2 i (j - Suc 0)"
      using j GapIn1 snoc.prems by (intro snoc.IH) simp_all
    moreover have "score_cell sc gap seq1 seq2 i (j - Suc 0) + gap \<le> score_cell sc gap seq1 seq2 i j"
      using j score_cell_left_le[of j sc gap seq1 seq2 i] by simp
    ultimately show ?thesis using GapIn1 by simp
  qed
qed

lemma path_is_alignment:
  "is_alignment (rev (path sc gap seq1 seq2 (length seq1) (length seq2))) seq1 seq2"
  using path_seq1_of[of "length seq1" seq1 sc gap seq2 "length seq2"]
        path_seq2_of[of "length seq2" seq2 sc gap seq1 "length seq1"]
  by (simp add: is_alignment_def)

lemma score_cell_optimal:
  "(\<exists>al. is_alignment al seq1 seq2 \<and>
         alignment_score sc gap al = score_cell sc gap seq1 seq2 (length seq1) (length seq2)) \<and>
   (\<forall>al. is_alignment al seq1 seq2 \<longrightarrow>
         alignment_score sc gap al \<le> score_cell sc gap seq1 seq2 (length seq1) (length seq2))"
proof (intro conjI allI impI)
  show "\<exists>al. is_alignment al seq1 seq2 \<and>
         alignment_score sc gap al = score_cell sc gap seq1 seq2 (length seq1) (length seq2)"
    using path_is_alignment[of sc gap seq1 seq2] path_score[of sc gap seq1 seq2 "length seq1" "length seq2"]
    by (intro exI[of _ "rev (path sc gap seq1 seq2 (length seq1) (length seq2))"]) simp
next
  fix al assume "is_alignment al seq1 seq2"
  then show "alignment_score sc gap al \<le> score_cell sc gap seq1 seq2 (length seq1) (length seq2)"
    by (intro score_cell_upper) (simp_all add: is_alignment_def)
qed

lemma remove_gaps_render1:
  "CHR ''-'' \<notin> set (seq1_of al) \<Longrightarrow> remove_gaps (map render1 al) = seq1_of al"
  by (induction al rule: seq1_of.induct) (auto simp: remove_gaps_def)

lemma remove_gaps_render2:
  "CHR ''-'' \<notin> set (seq2_of al) \<Longrightarrow> remove_gaps (map render2 al) = seq2_of al"
  by (induction al rule: seq2_of.induct) (auto simp: remove_gaps_def)

lemma no_gap_gap_column:
  "CHR ''-'' \<notin> set (seq1_of al) \<Longrightarrow> CHR ''-'' \<notin> set (seq2_of al) \<Longrightarrow> c \<in> set al \<Longrightarrow>
   \<not> (render1 c = CHR ''-'' \<and> render2 c = CHR ''-'')"
  by (induction al rule: seq1_of.induct) auto

section \<open>Properties of the specification\<close>

text \<open>
  Claim C1. For non-empty \<open>seq1\<close>, \<open>seq2\<close> and any scoring function and gap penalty,
  \<open>align\<close> returns, and its score is the cell \<open>[len(seq1)][len(seq2)]\<close> of the score
  matrix; that score is the total score of some global alignment of the two sequences,
  and no global alignment of them scores more: it is the maximum over all alignments.
\<close>

theorem align_score_optimal:
  assumes "seq1 \<noteq> []" and "seq2 \<noteq> []"
  shows "\<exists>T S a1 a2 s.
           run_needleman_wunsch sc gap seq1 seq2 = Inr (T, S) \<and>
           align sc gap seq1 seq2 = Some (Inr (a1, a2, s)) \<and>
           s = S ! length seq1 ! length seq2 \<and>
           (\<exists>al. is_alignment al seq1 seq2 \<and> alignment_score sc gap al = s) \<and>
           (\<forall>al. is_alignment al seq1 seq2 \<longrightarrow> alignment_score sc gap al \<le> s)"
proof -
  let ?s = "score_cell sc gap seq1 seq2 (length seq1) (length seq2)"
  have "tab (Suc (length seq1)) (Suc (length seq2)) (score_cell sc gap seq1 seq2)
          ! length seq1 ! length seq2 = ?s"
    by (rule nth_nth_tab) simp_all
  with align_path[OF assms, of sc gap] run_needleman_wunsch_Suc[of sc gap seq1 seq2]
       score_cell_optimal[of seq1 seq2 sc gap]
  show ?thesis by simp
qed

theorem align_score_optimal_witness:
  "''AT'' \<noteq> [] \<and> ''A'' \<noteq> [] \<and>
   align (score_match_mismatch \<lparr>match_score = 2, mismatch_score = - 1, gap_penalty = - 2\<rparr>) (- 2)
     ''AT'' ''A'' = Some (Inr (''AT'', ''A-'', 0)) \<and>
   is_alignment [GapIn2 CHR ''A'', Paired CHR ''T'' CHR ''A''] ''AT'' ''A'' \<and>
   alignment_score (score_match_mismatch \<lparr>match_score = 2, mismatch_score = - 1, gap_penalty = - 2\<rparr>)
     (- 2) [GapIn2 CHR ''A'', Paired CHR ''T'' CHR ''A''] \<le> 0"
proof -
  let ?sc = "score_match_mismatch \<lparr>match_score = 2, mismatch_score = - 1, gap_penalty = - 2\<rparr>"
  have e: "align ?sc (- 2) ''AT'' ''A'' = Some (Inr (''AT'', ''A-'', 0))"
    by code_simp
  have a: "is_alignment [GapIn2 CHR ''A'', Paired CHR ''T'' CHR ''A''] ''AT'' ''A''"
    by (simp add: is_alignment_def)
  from align_score_optimal[of "''AT''" "''A''" ?sc "- 2"] e
  have "\<forall>al. is_alignment al ''AT'' ''A'' \<longrightarrow> alignment_score ?sc (- 2) al \<le> 0"
    by auto
  with a e show ?thesis by blast
qed

text \<open>
  Claim C2. The score matrix returned by \<open>_run_needleman_wunsch\<close> has \<open>len(seq1) + 1\<close> rows
  of \<open>len(seq2) + 1\<close> entries, its origin is 0, its first row and first column hold
  \<open>j * gap_penalty\<close> and \<open>i * gap_penalty\<close>, and every interior cell is the maximum of
  the diagonal, up and left candidates. This holds for all inputs, so for the non-empty
  ones that \<open>align\<close> passes on.
\<close>

theorem score_matrix_recurrence:
  "\<exists>T S. run_needleman_wunsch sc gap seq1 seq2 = Inr (T, S) \<and>
     length S = length seq1 + 1 \<and>
     (\<forall>row \<in> set S. length row = length seq2 + 1) \<and>
     S ! 0 ! 0 = 0 \<and>
     (\<forall>j. 1 \<le> j \<and> j \<le> length seq2 \<longrightarrow> S ! 0 ! j = int j * gap) \<and>
     (\<forall>i. 1 \<le> i \<and> i \<le> length seq1 \<longrightarrow> S ! i ! 0 = int i * gap) \<and>
     (\<forall>i j. 1 \<le> i \<and> i \<le> length seq1 \<and> 1 \<le> j \<and> j \<le> length seq2 \<longrightarrow>
        S ! i ! j = max (max (S ! (i - 1) ! (j - 1) + sc (seq1 ! (i - 1)) (seq2 ! (j - 1)))
                             (S ! (i - 1) ! j + gap))
                        (S ! i ! (j - 1) + gap))"
proof -
  let ?S = "tab (Suc (length seq1)) (Suc (length seq2)) (score_cell sc gap seq1 seq2)"
  have cell: "?S ! i ! j = score_cell sc gap seq1 seq2 i j"
    if "i \<le> length seq1" "j \<le> length seq2" for i j
    using that by (intro nth_nth_tab) simp_all
  have rows: "\<forall>row \<in> set ?S. length row = length seq2 + 1"
    by (auto simp: tab_def)
  have interior: "?S ! i ! j = max (max (?S ! (i - 1) ! (j - 1) + sc (seq1 ! (i - 1)) (seq2 ! (j - 1)))
                             (?S ! (i - 1) ! j + gap))
                        (?S ! i ! (j - 1) + gap)"
    if "1 \<le> i" "i \<le> length seq1" "1 \<le> j" "j \<le> length seq2" for i j
  proof -
    have i': "i - 1 \<le> length seq1" and j': "j - 1 \<le> length seq2"
      using that by simp_all
    have pos: "0 < i" "0 < j" using that by simp_all
    show ?thesis
      unfolding cell[OF that(2,4)] cell[OF i' j'] cell[OF i' that(4)] cell[OF that(2) j']
      using pos by (rule score_cell_interior)
  qed
  show ?thesis
  proof (intro exI conjI)
    show "run_needleman_wunsch sc gap seq1 seq2
          = Inr (tab (Suc (length seq1)) (Suc (length seq2)) (trace_cell sc gap seq1 seq2), ?S)"
      by (rule run_needleman_wunsch_Suc)
    show "length ?S = length seq1 + 1" by simp
    show "\<forall>row \<in> set ?S. length row = length seq2 + 1" by (rule rows)
    show "?S ! 0 ! 0 = 0" unfolding cell[OF le0 le0] by simp
    show "\<forall>j. 1 \<le> j \<and> j \<le> length seq2 \<longrightarrow> ?S ! 0 ! j = int j * gap"
    proof (intro allI impI)
      fix j assume "1 \<le> j \<and> j \<le> length seq2"
      then have j: "j \<le> length seq2" by simp
      show "?S ! 0 ! j = int j * gap" unfolding cell[OF le0 j] by simp
    qed
    show "\<forall>i. 1 \<le> i \<and> i \<le> length seq1 \<longrightarrow> ?S ! i ! 0 = int i * gap"
    proof (intro allI impI)
      fix i assume "1 \<le> i \<and> i \<le> length seq1"
      then have i: "i \<le> length seq1" by simp
      show "?S ! i ! 0 = int i * gap" unfolding cell[OF i le0] by simp
    qed
    show "\<forall>i j. 1 \<le> i \<and> i \<le> length seq1 \<and> 1 \<le> j \<and> j \<le> length seq2 \<longrightarrow>
        ?S ! i ! j = max (max (?S ! (i - 1) ! (j - 1) + sc (seq1 ! (i - 1)) (seq2 ! (j - 1)))
                             (?S ! (i - 1) ! j + gap))
                        (?S ! i ! (j - 1) + gap)"
      using interior by blast
  qed
qed

theorem score_matrix_recurrence_witness:
  "run_needleman_wunsch (score_match_mismatch \<lparr>match_score = 2, mismatch_score = - 1, gap_penalty = - 2\<rparr>)
     (- 2) ''AT'' ''A''
   = Inr ([[None, Some CHR ''L''], [Some CHR ''U'', Some CHR ''D''], [Some CHR ''U'', Some CHR ''U'']],
          [[0, - 2], [- 2, 2], [- 4, 0]]) \<and>
   (1::nat) \<le> 2 \<and> 2 \<le> length ''AT'' \<and> (1::nat) \<le> 1 \<and> 1 \<le> length ''A'' \<and>
   [[0, - 2], [- 2, 2], [- 4, 0]] ! 2 ! 1
   = max (max ([[0, - 2], [- 2, 2], [- 4, 0]] ! 1 ! 0
                + score_match_mismatch \<lparr>match_score = 2, mismatch_score = - 1, gap_penalty = - 2\<rparr>
                    (''AT'' ! 1) (''A'' ! 0))
              ([[0, - 2], [- 2, 2], [- 4, 0]] ! 1 ! 1 + (- 2)))
         ([[0, - 2], [- 2, 2], [- 4, 0 :: int]] ! 2 ! 0 + (- 2))"
proof -
  let ?sc = "score_match_mismatch \<lparr>match_score = 2, mismatch_score = - 1, gap_penalty = - 2\<rparr>"
  let ?S0 = "[[0, - 2], [- 2, 2], [- 4, 0 :: int]]"
  have e: "run_needleman_wunsch ?sc (- 2) ''AT'' ''A''
   = Inr ([[None, Some CHR ''L''], [Some CHR ''U'', Some CHR ''D''], [Some CHR ''U'', Some CHR ''U'']], ?S0)"
    by code_simp
  from score_matrix_recurrence[of ?sc "- 2" "''AT''" "''A''"] e
  have "\<forall>i j. 1 \<le> i \<and> i \<le> length ''AT'' \<and> 1 \<le> j \<and> j \<le> length ''A'' \<longrightarrow>
        ?S0 ! i ! j = max (max (?S0 ! (i - 1) ! (j - 1) + ?sc (''AT'' ! (i - 1)) (''A'' ! (j - 1)))
                             (?S0 ! (i - 1) ! j + (- 2)))
                        (?S0 ! i ! (j - 1) + (- 2))"
    by auto
  from this[rule_format, of 2 1] e show ?thesis by simp
qed

text \<open>
  Claim C3. In the traceback matrix returned by \<open>_run_needleman_wunsch\<close>, every interior
  cell holds 'D' if the diagonal candidate equals the maximum of the three candidates,
  else 'U' if the up candidate does, else 'L'.
\<close>

theorem traceback_matrix_tie_break:
  "\<exists>T S. run_needleman_wunsch sc gap seq1 seq2 = Inr (T, S) \<and>
     (\<forall>i j. 1 \<le> i \<and> i \<le> length seq1 \<and> 1 \<le> j \<and> j \<le> length seq2 \<longrightarrow>
        T ! i ! j =
          (let diagonal = S ! (i - 1) ! (j - 1) + sc (seq1 ! (i - 1)) (seq2 ! (j - 1));
               up = S ! (i - 1) ! j + gap;
               left = S ! i ! (j - 1) + gap;
               m = max (max diagonal up) left
           in Some (if diagonal = m then CHR ''D'' else if up = m then CHR ''U'' else CHR ''L'')))"
proof -
  let ?S = "tab (Suc (length seq1)) (Suc (length seq2)) (score_cell sc gap seq1 seq2)"
  let ?T = "tab (Suc (length seq1)) (Suc (length seq2)) (trace_cell sc gap seq1 seq2)"
  have cell: "?S ! i ! j = score_cell sc gap seq1 seq2 i j"
    if "i \<le> length seq1" "j \<le> length seq2" for i j
    using that by (intro nth_nth_tab) simp_all
  have tcell: "?T ! i ! j = trace_cell sc gap seq1 seq2 i j"
    if "i \<le> length seq1" "j \<le> length seq2" for i j
    using that by (intro nth_nth_tab) simp_all
  have interior: "?T ! i ! j =
          (let diagonal = ?S ! (i - 1) ! (j - 1) + sc (seq1 ! (i - 1)) (seq2 ! (j - 1));
               up = ?S ! (i - 1) ! j + gap;
               left = ?S ! i ! (j - 1) + gap;
               m = max (max diagonal up) left
           in Some (if diagonal = m then CHR ''D'' else if up = m then CHR ''U'' else CHR ''L''))"
    if "1 \<le> i" "i \<le> length seq1" "1 \<le> j" "j \<le> length seq2" for i j
  proof -
    have i': "i - 1 \<le> length seq1" and j': "j - 1 \<le> length seq2"
      using that by simp_all
    have pos: "0 < i" "0 < j" using that by simp_all
    have nz: "i \<noteq> 0" "j \<noteq> 0" using that by simp_all
    have m: "max (max (score_cell sc gap seq1 seq2 (i - 1) (j - 1) + sc (seq1 ! (i - 1)) (seq2 ! (j - 1)))
                      (score_cell sc gap seq1 seq2 (i - 1) j + gap))
                 (score_cell sc gap seq1 seq2 i (j - 1) + gap)
             = score_cell sc gap seq1 seq2 i j"
      using pos by (rule score_cell_interior[symmetric])
    show ?thesis
      unfolding tcell[OF that(2,4)] cell[OF i' j'] cell[OF i' that(4)] cell[OF that(2) j']
        Let_def m trace_cell_def if_not_P[OF nz(1)] if_not_P[OF nz(2)]
      by (simp only: eq_commute[of "score_cell sc gap seq1 seq2 i j"])
  qed
  show ?thesis
  proof (intro exI conjI)
    show "run_needleman_wunsch sc gap seq1 seq2 = Inr (?T, ?S)"
      by (rule run_needleman_wunsch_Suc)
    show "\<forall>i j. 1 \<le> i \<and> i \<le> length seq1 \<and> 1 \<le> j \<and> j \<le> length seq2 \<longrightarrow>
        ?T ! i ! j =
          (let diagonal = ?S ! (i - 1) ! (j - 1) + sc (seq1 ! (i - 1)) (seq2 ! (j - 1));
               up = ?S ! (i - 1) ! j + gap;
               left = ?S ! i ! (j - 1) + gap;
               m = max (max diagonal up) left
           in Some (if diagonal = m then CHR ''D'' else if up = m then CHR ''U'' else CHR ''L''))"
      using interior by blast
  qed
qed

theorem traceback_matrix_tie_break_witness:
  "run_needleman_wunsch (score_match_mismatch \<lparr>match_score = 2, mismatch_score = - 1, gap_penalty = - 2\<rparr>)
     (- 2) ''AT'' ''A''
   = Inr ([[None, Some CHR ''L''], [Some CHR ''U'', Some CHR ''D''], [Some CHR ''U'', Some CHR ''U'']],
          [[0, - 2], [- 2, 2], [- 4, 0]]) \<and>
   (1::nat) \<le> 2 \<and> 2 \<le> length ''AT'' \<and> (1::nat) \<le> 1 \<and> 1 \<le> length ''A'' \<and>
   [[None, Some CHR ''L''], [Some CHR ''U'', Some CHR ''D''], [Some CHR ''U'', Some CHR ''U'']] ! 2 ! 1
   = Some CHR ''U''"
proof -
  let ?sc = "score_match_mismatch \<lparr>match_score = 2, mismatch_score = - 1, gap_penalty = - 2\<rparr>"
  let ?S0 = "[[0, - 2], [- 2, 2], [- 4, 0 :: int]]"
  let ?T0 = "[[None, Some CHR ''L''], [Some CHR ''U'', Some CHR ''D''], [Some CHR ''U'', Some CHR ''U'']]"
  have e: "run_needleman_wunsch ?sc (- 2) ''AT'' ''A'' = Inr (?T0, ?S0)"
    by code_simp
  from traceback_matrix_tie_break[of ?sc "- 2" "''AT''" "''A''"] e
  have "\<forall>i j. 1 \<le> i \<and> i \<le> length ''AT'' \<and> 1 \<le> j \<and> j \<le> length ''A'' \<longrightarrow>
        ?T0 ! i ! j =
          (let diagonal = ?S0 ! (i - 1) ! (j - 1) + ?sc (''AT'' ! (i - 1)) (''A'' ! (j - 1));
               up = ?S0 ! (i - 1) ! j + (- 2);
               left = ?S0 ! i ! (j - 1) + (- 2);
               m = max (max diagonal up) left
           in Some (if diagonal = m then CHR ''D'' else if up = m then CHR ''U'' else CHR ''L''))"
    by auto
  from this[rule_format, of 2 1] e show ?thesis by simp
qed

text \<open>
  Claim C4, as stated, fails: \<open>align\<close> accepts any non-empty strings, and a gap marker
  that is part of an input is removed with the inserted ones. With the flat policy
  (2, -1, -2), \<open>align("-", "A")\<close> returns \<open>("-", "A", -1)\<close>, and removing the gap markers
  from \<open>"-"\<close> leaves the empty string.
\<close>

theorem align_round_trip_counterexample:
  "NeedlemanWunsch_align \<lparr>match_score = 2, mismatch_score = - 1, gap_penalty = - 2\<rparr> ''-'' ''A''
     = Some (Inr (''-'', ''A'', - 1)) \<and>
   remove_gaps ''-'' \<noteq> ''-''"
proof
  show "NeedlemanWunsch_align \<lparr>match_score = 2, mismatch_score = - 1, gap_penalty = - 2\<rparr> ''-'' ''A''
          = Some (Inr (''-'', ''A'', - 1))"
    by code_simp
  show "remove_gaps ''-'' \<noteq> ''-''"
    by (simp add: remove_gaps_def)
qed

text \<open>
  Claim C4, amended. For non-empty inputs \<open>align\<close> returns two strings of the same length;
  removing the gap markers from the first gives back \<open>seq1\<close> whenever \<open>seq1\<close> contains no
  gap marker, and removing them from the second gives back \<open>seq2\<close> whenever \<open>seq2\<close>
  contains none.
\<close>

theorem align_round_trip:
  assumes "seq1 \<noteq> []" and "seq2 \<noteq> []"
  shows "\<exists>a1 a2 s. align sc gap seq1 seq2 = Some (Inr (a1, a2, s)) \<and>
           length a1 = length a2 \<and>
           (CHR ''-'' \<notin> set seq1 \<longrightarrow> remove_gaps a1 = seq1) \<and>
           (CHR ''-'' \<notin> set seq2 \<longrightarrow> remove_gaps a2 = seq2)"
proof -
  let ?al = "rev (path sc gap seq1 seq2 (length seq1) (length seq2))"
  have al: "seq1_of ?al = seq1" "seq2_of ?al = seq2"
    using path_is_alignment[of sc gap seq1 seq2] by (simp_all add: is_alignment_def)
  have r1: "CHR ''-'' \<notin> set seq1 \<longrightarrow> remove_gaps (map render1 ?al) = seq1"
    using remove_gaps_render1[of ?al] al(1) by simp
  have r2: "CHR ''-'' \<notin> set seq2 \<longrightarrow> remove_gaps (map render2 ?al) = seq2"
    using remove_gaps_render2[of ?al] al(2) by simp
  have len: "length (map render1 ?al) = length (map render2 ?al)" by simp
  from align_path[OF assms, of sc gap] r1 r2 len show ?thesis by blast
qed

theorem align_round_trip_witness:
  "''AT'' \<noteq> [] \<and> ''A'' \<noteq> [] \<and> CHR ''-'' \<notin> set ''AT'' \<and> CHR ''-'' \<notin> set ''A'' \<and>
   align (score_match_mismatch \<lparr>match_score = 2, mismatch_score = - 1, gap_penalty = - 2\<rparr>) (- 2)
     ''AT'' ''A'' = Some (Inr (''AT'', ''A-'', 0)) \<and>
   length ''AT'' = length ''A-'' \<and> remove_gaps ''AT'' = ''AT'' \<and> remove_gaps ''A-'' = ''A''"
proof -
  let ?sc = "score_match_mismatch \<lparr>match_score = 2, mismatch_score = - 1, gap_penalty = - 2\<rparr>"
  have e: "align ?sc (- 2) ''AT'' ''A'' = Some (Inr (''AT'', ''A-'', 0))"
    by code_simp
  from align_round_trip[of "''AT''" "''A''" ?sc "- 2"] e
  have "length ''AT'' = length ''A-'' \<and> remove_gaps ''AT'' = ''AT'' \<and> remove_gaps ''A-'' = ''A''"
    by auto
  with e show ?thesis by simp
qed

text \<open>
  Claim C5. \<open>align\<close> raises \<open>ValueError\<close> (the spec's InvalidInput) exactly when one of the
  two sequences is empty, and for non-empty sequences it returns a result: no exception
  and no endless loop.
\<close>

theorem align_invalid_input_iff:
  "(align sc gap seq1 seq2 = Some (Inl ValueError) \<longleftrightarrow> seq1 = [] \<or> seq2 = []) \<and>
   (seq1 \<noteq> [] \<and> seq2 \<noteq> [] \<longrightarrow> (\<exists>r. align sc gap seq1 seq2 = Some (Inr r)))"
proof (cases "seq1 = [] \<or> seq2 = []")
  case True
  then show ?thesis by (auto simp: align_def)
next
  case False
  then have ne: "seq1 \<noteq> []" "seq2 \<noteq> []" by simp_all
  from align_path[OF ne, of sc gap] False show ?thesis by simp
qed

theorem align_invalid_input_iff_witness:
  "align (score_match_mismatch \<lparr>match_score = 2, mismatch_score = - 1, gap_penalty = - 2\<rparr>) (- 2)
     [] ''ATCG'' = Some (Inl ValueError) \<and>
   align (score_match_mismatch \<lparr>match_score = 2, mismatch_score = - 1, gap_penalty = - 2\<rparr>) (- 2)
     ''ATCG'' [] = Some (Inl ValueError) \<and>
   align (score_match_mismatch \<lparr>match_score = 2, mismatch_score = - 1, gap_penalty = - 2\<rparr>) (- 2)
     [] [] = Some (Inl ValueError) \<and>
   ''AT'' \<noteq> [] \<and> ''A'' \<noteq> [] \<and>
   (\<exists>r. align (score_match_mismatch \<lparr>match_score = 2, mismatch_score = - 1, gap_penalty = - 2\<rparr>)
          (- 2) ''AT'' ''A'' = Some (Inr r))"
proof -
  let ?sc = "score_match_mismatch \<lparr>match_score = 2, mismatch_score = - 1, gap_penalty = - 2\<rparr>"
  show ?thesis
    using align_invalid_input_iff[of ?sc "- 2" "[]" "''ATCG''"]
          align_invalid_input_iff[of ?sc "- 2" "''ATCG''" "[]"]
          align_invalid_input_iff[of ?sc "- 2" "[]" "[]"]
          align_invalid_input_iff[of ?sc "- 2" "''AT''" "''A''"]
    by simp
qed

text \<open>
  Claim C6 says that \<open>align_with_matrices\<close> validates its inputs as \<open>align\<close> does. The
  method has no such check: on an empty first sequence it returns a result instead of
  raising \<open>ValueError\<close>. Here \<open>seq1 = ""\<close>, \<open>seq2 = "AB"\<close> with the flat policy (2, -1, -2).
\<close>

theorem align_with_matrices_empty_input:
  "align_with_matrices
     (score_match_mismatch \<lparr>match_score = 2, mismatch_score = - 1, gap_penalty = - 2\<rparr>) (- 2)
     [] ''AB''
   = Some (Inr \<lparr>seq1_aligned = ''--'', seq2_aligned = ''AB'', score = - 4,
                 score_matrix = [[0, - 2, - 4]],
                 traceback_matrix = [[None, Some CHR ''L'', Some CHR ''L'']]\<rparr>)"
  by code_simp

text \<open>
  Claim C7. Under the transition/transversion policy every one of A, T, G, C scores
  \<open>match_score\<close> against itself, the pairs A/G and C/T score \<open>transition_penalty\<close> in
  both orders, and the pairs A/T, G/C, A/C, G/T score \<open>transversion_penalty\<close> in both
  orders.
\<close>

theorem advanced_policy_scores:
  "score_match_mismatch_advanced self CHR ''A'' CHR ''A'' = match_score self \<and>
   score_match_mismatch_advanced self CHR ''T'' CHR ''T'' = match_score self \<and>
   score_match_mismatch_advanced self CHR ''G'' CHR ''G'' = match_score self \<and>
   score_match_mismatch_advanced self CHR ''C'' CHR ''C'' = match_score self \<and>
   score_match_mismatch_advanced self CHR ''A'' CHR ''G'' = transition_penalty self \<and>
   score_match_mismatch_advanced self CHR ''G'' CHR ''A'' = transition_penalty self \<and>
   score_match_mismatch_advanced self CHR ''C'' CHR ''T'' = transition_penalty self \<and>
   score_match_mismatch_advanced self CHR ''T'' CHR ''C'' = transition_penalty self \<and>
   score_match_mismatch_advanced self CHR ''A'' CHR ''T'' = transversion_penalty self \<and>
   score_match_mismatch_advanced self CHR ''T'' CHR ''A'' = transversion_penalty self \<and>
   score_match_mismatch_advanced self CHR ''G'' CHR ''C'' = transversion_penalty self \<and>
   score_match_mismatch_advanced self CHR ''C'' CHR ''G'' = transversion_penalty self \<and>
   score_match_mismatch_advanced self CHR ''A'' CHR ''C'' = transversion_penalty self \<and>
   score_match_mismatch_advanced self CHR ''C'' CHR ''A'' = transversion_penalty self \<and>
   score_match_mismatch_advanced self CHR ''G'' CHR ''T'' = transversion_penalty self \<and>
   score_match_mismatch_advanced self CHR ''T'' CHR ''G'' = transversion_penalty self"
  by (simp add: score_match_mismatch_advanced_def upper_def transitions_def)

text \<open>
  Claim C8 says that both policies compare symbols without regard to case, so that
  \<open>score('a', 'A')\<close> is \<open>match_score\<close>. Both methods test \<open>char1 == char2\<close> on the symbols
  as given: the flat policy (2, -1, -2) scores 'a' against 'A' as a mismatch, -1, and the
  transition/transversion policy (2, -1, -2, -1) scores it as a transversion, -2.
\<close>

theorem score_match_mismatch_case_sensitive:
  "score_match_mismatch \<lparr>match_score = 2, mismatch_score = - 1, gap_penalty = - 2\<rparr>
     CHR ''a'' CHR ''A'' = - 1 \<and>
   score_match_mismatch_advanced (NeedlemanWunschAdvanced_init 2 (- 1) (- 2) (- 1))
     CHR ''a'' CHR ''A'' = - 2"
  by code_simp

text \<open>
  Claim C9. The three scenarios with the flat policy: WHY against WHAT with (1, -1, -2),
  GCATGCT against GATTACA with (1, -1, -1), whose score is 0, and ATCG against itself
  with (2, -1, -2).
\<close>

theorem align_scenarios:
  "NeedlemanWunsch_align \<lparr>match_score = 1, mismatch_score = - 1, gap_penalty = - 2\<rparr>
     ''WHY'' ''WHAT'' = Some (Inr (''WH-Y'', ''WHAT'', - 1)) \<and>
   NeedlemanWunsch_align \<lparr>match_score = 1, mismatch_score = - 1, gap_penalty = - 1\<rparr>
     ''GCATGCT'' ''GATTACA'' = Some (Inr (''GCA-TGCT'', ''G-ATTACA'', 0)) \<and>
   NeedlemanWunsch_align \<lparr>match_score = 2, mismatch_score = - 1, gap_penalty = - 2\<rparr>
     ''ATCG'' ''ATCG'' = Some (Inr (''ATCG'', ''ATCG'', 8))"
proof (intro conjI)
  show "NeedlemanWunsch_align \<lparr>match_score = 1, mismatch_score = - 1, gap_penalty = - 2\<rparr>
     ''WHY'' ''WHAT'' = Some (Inr (''WH-Y'', ''WHAT'', - 1))"
    by code_simp
  show "NeedlemanWunsch_align \<lparr>match_score = 1, mismatch_score = - 1, gap_penalty = - 1\<rparr>
     ''GCATGCT'' ''GATTACA'' = Some (Inr (''GCA-TGCT'', ''G-ATTACA'', 0))"
    by code_simp
  show "NeedlemanWunsch_align \<lparr>match_score = 2, mismatch_score = - 1, gap_penalty = - 2\<rparr>
     ''ATCG'' ''ATCG'' = Some (Inr (''ATCG'', ''ATCG'', 8))"
    by code_simp
qed

text \<open>
  Claim C10, as stated, fails: a gap marker that is part of both inputs can be paired
  with itself. With the flat policy (2, -1, -2), \<open>align("-", "-")\<close> returns
  \<open>("-", "-", 2)\<close>, whose only column holds the gap marker twice.
\<close>

theorem align_gap_gap_column_counterexample:
  "NeedlemanWunsch_align \<lparr>match_score = 2, mismatch_score = - 1, gap_penalty = - 2\<rparr> ''-'' ''-''
     = Some (Inr (''-'', ''-'', 2)) \<and>
   (0::nat) < length ''-'' \<and> ''-'' ! 0 = CHR ''-''"
proof (intro conjI)
  show "NeedlemanWunsch_align \<lparr>match_score = 2, mismatch_score = - 1, gap_penalty = - 2\<rparr> ''-'' ''-''
          = Some (Inr (''-'', ''-'', 2))"
    by code_simp
qed simp_all

text \<open>
  Claim C10, amended. For non-empty inputs the two aligned strings have a common length
  between \<open>max(len(seq1), len(seq2))\<close> and \<open>len(seq1) + len(seq2)\<close>; and when neither
  input contains the gap marker, no position holds the gap marker in both.
\<close>

theorem align_no_gap_gap_column:
  assumes "seq1 \<noteq> []" and "seq2 \<noteq> []"
  shows "\<exists>a1 a2 s. align sc gap seq1 seq2 = Some (Inr (a1, a2, s)) \<and>
           length a1 = length a2 \<and>
           max (length seq1) (length seq2) \<le> length a1 \<and>
           length a1 \<le> length seq1 + length seq2 \<and>
           (CHR ''-'' \<notin> set seq1 \<and> CHR ''-'' \<notin> set seq2 \<longrightarrow>
              (\<forall>k < length a1. \<not> (a1 ! k = CHR ''-'' \<and> a2 ! k = CHR ''-'')))"
proof -
  let ?p = "path sc gap seq1 seq2 (length seq1) (length seq2)"
  let ?al = "rev ?p"
  have al: "seq1_of ?al = seq1" "seq2_of ?al = seq2"
    using path_is_alignment[of sc gap seq1 seq2] by (simp_all add: is_alignment_def)
  have len: "length (map render1 ?al) = length (map render2 ?al)" by simp
  have lo: "max (length seq1) (length seq2) \<le> length (map render1 ?al)"
    using path_length_lower[of "length seq1" "length seq2" sc gap seq1 seq2] by simp
  have hi: "length (map render1 ?al) \<le> length seq1 + length seq2"
    using path_length_upper[of sc gap seq1 seq2 "length seq1" "length seq2"] by simp
  have gg: "CHR ''-'' \<notin> set seq1 \<and> CHR ''-'' \<notin> set seq2 \<longrightarrow>
              (\<forall>k < length (map render1 ?al).
                 \<not> (map render1 ?al ! k = CHR ''-'' \<and> map render2 ?al ! k = CHR ''-''))"
  proof (intro impI allI)
    fix k
    assume free: "CHR ''-'' \<notin> set seq1 \<and> CHR ''-'' \<notin> set seq2"
      and k: "k < length (map render1 ?al)"
    then have kl: "k < length ?al" by simp
    then have mem: "?al ! k \<in> set ?al" by (rule nth_mem)
    have "\<not> (render1 (?al ! k) = CHR ''-'' \<and> render2 (?al ! k) = CHR ''-'')"
      using free al by (intro no_gap_gap_column[OF _ _ mem]) simp_all
    then show "\<not> (map render1 ?al ! k = CHR ''-'' \<and> map render2 ?al ! k = CHR ''-'')"
      using kl by simp
  qed
  from align_path[OF assms, of sc gap] len lo hi gg show ?thesis by blast
qed

theorem align_no_gap_gap_column_witness:
  "''AT'' \<noteq> [] \<and> ''A'' \<noteq> [] \<and> CHR ''-'' \<notin> set ''AT'' \<and> CHR ''-'' \<notin> set ''A'' \<and>
   align (score_match_mismatch \<lparr>match_score = 2, mismatch_score = - 1, gap_penalty = - 2\<rparr>) (- 2)
     ''AT'' ''A'' = Some (Inr (''AT'', ''A-'', 0)) \<and>
   max (length ''AT'') (length ''A'') \<le> length ''AT'' \<and>
   length ''AT'' \<le> length ''AT'' + length ''A'' \<and>
   (1::nat) < length ''AT'' \<and> \<not> (''AT'' ! 1 = CHR ''-'' \<and> ''A-'' ! 1 = CHR ''-'')"
proof -
  let ?sc = "score_match_mismatch \<lparr>match_score = 2, mismatch_score = - 1, gap_penalty = - 2\<rparr>"
  have e: "align ?sc (- 2) ''AT'' ''A'' = Some (Inr (''AT'', ''A-'', 0))"
    by code_simp
  from align_no_gap_gap_column[of "''AT''" "''A''" ?sc "- 2"] e
  have "max (length ''AT'') (length ''A'') \<le> length ''AT'' \<and>
        length ''AT'' \<le> length ''AT'' + length ''A'' \<and>
        (\<forall>k < length ''AT''. \<not> (''AT'' ! k = CHR ''-'' \<and> ''A-'' ! k = CHR ''-''))"
    by auto
  with e show ?thesis by simp
qed

end
